theory Spec2Isabelle
  imports Main "HOL-Library.Word"
begin

section \<open>The Interception keyboard typer (interception-type.cpp)\<close>

text \<open>
  The program maps each character of a text to a keyboard scan code and sends key-down and
  key-up strokes for it through the Interception driver, holding left shift around the keys
  that need it. This theory embeds \<open>char_to_scancode\<close>, \<open>send_key\<close>, \<open>type_text\<close> and
  \<open>main\<close> and proves the properties of the specification about them.
\<close>

subsection \<open>Characters\<close>

text \<open>
  A C \<open>char\<close> is a byte, modelled by \<^typ>\<open>char\<close>. The program is built with the Microsoft
  compiler, where \<open>char\<close> is signed: in a comparison or a subtraction the byte is promoted
  to the \<open>int\<close> given by \<open>c_val\<close>, which is negative for the bytes from 0x80 on.
\<close>

definition c_val :: "char \<Rightarrow> int" where
  "c_val c = (if of_char c < (128::int) then of_char c else of_char c - 256)"

subsection \<open>char_to_scancode\<close>

text \<open>
  The source returns the scan code and writes the shift flag through the reference
  parameter \<open>need_shift\<close>, which it sets to false on entry; the model returns both as a pair.
  The \<open>int\<close> expression \<open>0x1E + (c - 'a')\<close> is converted to \<open>unsigned short\<close> on return.
  The \<open>switch\<close> is the chain of equality tests in the order of its labels.
\<close>

definition char_to_scancode :: "char \<Rightarrow> 16 word \<times> bool" where
  "char_to_scancode c =
    (if c_val (CHR ''a'') \<le> c_val c \<and> c_val c \<le> c_val (CHR ''z'')
       then (word_of_int (0x1E + (c_val c - c_val (CHR ''a''))), False)
     else if c_val (CHR ''A'') \<le> c_val c \<and> c_val c \<le> c_val (CHR ''Z'')
       then (word_of_int (0x1E + (c_val c - c_val (CHR ''A''))), True)
     else if c_val (CHR ''0'') \<le> c_val c \<and> c_val c \<le> c_val (CHR ''9'')
       then (if c = CHR ''0'' then (0x0B, False)
             else (word_of_int (0x02 + (c_val c - c_val (CHR ''1''))), False))
     else if c = CHR '' '' then (0x39, False)
     else if c = CHR 0x0A then (0x1C, False)
     else if c = CHR 0x09 then (0x0F, False)
     else if c = CHR ''-'' then (0x0C, False)
     else if c = CHR ''='' then (0x0D, False)
     else if c = CHR ''['' then (0x1A, False)
     else if c = CHR '']'' then (0x1B, False)
     else if c = CHR 0x5C then (0x2B, False)
     else if c = CHR '';'' then (0x27, False)
     else if c = CHR 0x27 then (0x28, False)
     else if c = CHR 0x60 then (0x29, False)
     else if c = CHR '','' then (0x33, False)
     else if c = CHR ''.'' then (0x34, False)
     else if c = CHR ''/'' then (0x35, False)
     else if c = CHR ''!'' then (0x02, True)
     else if c = CHR ''@'' then (0x03, True)
     else if c = CHR ''#'' then (0x04, True)
     else if c = CHR ''$'' then (0x05, True)
     else if c = CHR ''%'' then (0x06, True)
     else if c = CHR ''^'' then (0x07, True)
     else if c = CHR ''&'' then (0x08, True)
     else if c = CHR ''*'' then (0x09, True)
     else if c = CHR ''('' then (0x0A, True)
     else if c = CHR '')'' then (0x0B, True)
     else if c = CHR ''_'' then (0x0C, True)
     else if c = CHR ''+'' then (0x0D, True)
     else if c = CHR ''{'' then (0x1A, True)
     else if c = CHR ''}'' then (0x1B, True)
     else if c = CHR ''|'' then (0x2B, True)
     else if c = CHR '':'' then (0x27, True)
     else if c = CHR 0x22 then (0x28, True)
     else if c = CHR ''~'' then (0x29, True)
     else if c = CHR ''<'' then (0x33, True)
     else if c = CHR ''>'' then (0x34, True)
     else if c = CHR ''?'' then (0x35, True)
     else (0x00, False))"

subsection \<open>The outside world\<close>

text \<open>
  The program acts on the world only through calls to the Interception library, to
  \<open>Sleep\<close> and to \<open>printf\<close>. A run is modelled by the list of those calls in the order
  they are made (\<open>trace\<close>). \<open>InterceptionKeyStroke\<close> is the library's stroke structure as
  \<open>send_key\<close> fills it; the constants of \<open>interception.h\<close> are kept as enumeration values.
\<close>

datatype key_state = INTERCEPTION_KEY_DOWN | INTERCEPTION_KEY_UP

datatype key_filter = INTERCEPTION_FILTER_KEY_NONE | INTERCEPTION_FILTER_KEY_DOWN

record InterceptionKeyStroke =
  code :: "16 word"
  state :: key_state
  information :: "32 word"

datatype effect =
    Stdout string
  | Stderr string
  | Send nat int InterceptionKeyStroke int
  | Slept "32 word"
  | SetFilter nat key_filter
  | DestroyContext nat

text \<open>
  The library is a parameter of the model. \<open>interception_create_context\<close> is the context
  pointer it hands out (0 is the null pointer), \<open>interception_wait\<close> the device it reports,
  \<open>interception_is_invalid\<close> its test on devices, and \<open>send_result n s\<close> the value that
  \<open>interception_send\<close> returns for stroke \<open>s\<close> when \<open>n\<close> strokes were sent before: the
  number of strokes written, 1 on success and less on failure.
\<close>

record driver =
  interception_create_context :: nat
  interception_wait :: int
  interception_is_invalid :: "int \<Rightarrow> bool"
  send_result :: "nat \<Rightarrow> InterceptionKeyStroke \<Rightarrow> int"

text \<open>
  \<open>Sleep\<close> is the Win32 call: its parameter is a \<open>DWORD\<close>, and the value \<open>INFINITE\<close>
  (all 32 bits set) suspends the calling thread with no time-out, so that call never
  returns. The field \<open>hung\<close> records that the single thread of the program is suspended for
  ever; from then on no call is made. Every other call is taken to return.
\<close>

record world =
  trace :: "effect list"
  hung :: bool

definition start :: world where
  "start = \<lparr>trace = [], hung = False\<rparr>"

definition INFINITE :: "32 word" where
  "INFINITE = 0xFFFFFFFF"

definition emit :: "effect \<Rightarrow> world \<Rightarrow> world" where
  "emit e w = (if hung w then w else w\<lparr>trace := trace w @ [e]\<rparr>)"

definition printf :: "string \<Rightarrow> world \<Rightarrow> world" where
  "printf s = emit (Stdout s)"

definition fprintf_stderr :: "string \<Rightarrow> world \<Rightarrow> world" where
  "fprintf_stderr s = emit (Stderr s)"

definition Sleep :: "32 word \<Rightarrow> world \<Rightarrow> world" where
  "Sleep ms w =
    (if hung w then w else w\<lparr>trace := trace w @ [Slept ms], hung := (ms = INFINITE)\<rparr>)"

fun is_send :: "effect \<Rightarrow> bool" where
  "is_send (Send c d s r) = True"
| "is_send _ = False"

definition interception_send ::
  "driver \<Rightarrow> nat \<Rightarrow> int \<Rightarrow> InterceptionKeyStroke \<Rightarrow> world \<Rightarrow> int \<times> world" where
  "interception_send drv context device stroke w =
    (if hung w then (0, w)
     else (let r = send_result drv (length (filter is_send (trace w))) stroke
           in (r, w\<lparr>trace := trace w @ [Send context device stroke r]\<rparr>)))"

subsection \<open>Formatting\<close>

text \<open>
  \<open>%d\<close> prints a signed decimal number, \<open>%c\<close> the byte itself, and \<open>%02X\<close> of an
  \<open>unsigned char\<close> two upper-case hexadecimal digits.
\<close>

definition digit_char :: "nat \<Rightarrow> char" where
  "digit_char n = char_of (48 + n)"

fun show_nat :: "nat \<Rightarrow> string" where
  "show_nat n = (if n < 10 then [digit_char n] else show_nat (n div 10) @ [digit_char (n mod 10)])"

declare show_nat.simps [simp del]

definition show_int :: "int \<Rightarrow> string" where
  "show_int i = (if i < 0 then CHR ''-'' # show_nat (nat (- i)) else show_nat (nat i))"

definition hex_digit :: "nat \<Rightarrow> char" where
  "hex_digit n = (if n < 10 then char_of (48 + n) else char_of (55 + n))"

definition hex2 :: "char \<Rightarrow> string" where
  "hex2 c = [hex_digit (of_char c div 16), hex_digit (of_char c mod 16)]"

definition warning_line :: "char \<Rightarrow> string" where
  "warning_line c =
    ''Warning: Unknown character '' @ [CHR 0x27, c, CHR 0x27] @ '' (0x'' @ hex2 c @ '')'' @ [CHR 0x0A]"

definition typed_line :: "char \<Rightarrow> string" where
  "typed_line c = ''Typed: '' @ [c, CHR 0x0A]"

subsection \<open>send_key and type_text\<close>

text \<open>\<open>send_key\<close> builds the stroke and drops the value that \<open>interception_send\<close> returns.\<close>

definition send_key :: "driver \<Rightarrow> nat \<Rightarrow> int \<Rightarrow> 16 word \<Rightarrow> bool \<Rightarrow> world \<Rightarrow> world" where
  "send_key drv context keyboard scancode down w =
    (let stroke = \<lparr>code = scancode,
                   state = (if down then INTERCEPTION_KEY_DOWN else INTERCEPTION_KEY_UP),
                   information = 0\<rparr>
     in snd (interception_send drv context keyboard stroke w))"

text \<open>
  A C string is the bytes before the first NUL; \<open>strlen\<close> counts them. The text comes from
  the command line, so its length is far below the range of \<open>int len\<close>.
\<close>

definition c_str :: "string \<Rightarrow> string" where
  "c_str s = takeWhile (\<lambda>c. c \<noteq> CHR 0x00) s"

definition strlen :: "string \<Rightarrow> nat" where
  "strlen s = length (c_str s)"

text \<open>
  \<open>type_char\<close> is the body of the \<open>for\<close> loop of \<open>type_text\<close> for the character \<open>text[i]\<close>;
  \<open>delay_ms\<close> is a C \<open>int\<close>, and passing it to \<open>Sleep\<close> converts it to \<open>DWORD\<close> with the
  same 32 bits.
\<close>

definition type_char :: "driver \<Rightarrow> nat \<Rightarrow> int \<Rightarrow> 32 word \<Rightarrow> char \<Rightarrow> world \<Rightarrow> world" where
  "type_char drv context keyboard delay_ms c w =
    (case char_to_scancode c of (scancode, need_shift) \<Rightarrow>
      if scancode = 0x00 then printf (warning_line c) w
      else
        let w1 = (if need_shift then Sleep 10 (send_key drv context keyboard 0x2A True w) else w);
            w2 = Sleep 10 (send_key drv context keyboard scancode True w1);
            w3 = send_key drv context keyboard scancode False w2;
            w4 = (if need_shift then send_key drv context keyboard 0x2A False (Sleep 10 w3) else w3);
            w5 = Sleep delay_ms w4
        in printf (typed_line c) w5)"

fun type_loop :: "driver \<Rightarrow> nat \<Rightarrow> int \<Rightarrow> 32 word \<Rightarrow> string \<Rightarrow> world \<Rightarrow> world" where
  "type_loop drv context keyboard delay_ms [] w = w"
| "type_loop drv context keyboard delay_ms (c # cs) w =
     type_loop drv context keyboard delay_ms cs (type_char drv context keyboard delay_ms c w)"

definition type_text :: "driver \<Rightarrow> nat \<Rightarrow> int \<Rightarrow> string \<Rightarrow> 32 word \<Rightarrow> world \<Rightarrow> world" where
  "type_text drv context keyboard text delay_ms w =
     type_loop drv context keyboard delay_ms (c_str text) w"

subsection \<open>main\<close>

text \<open>
  \<open>atoi\<close> is the C library's: it skips white space, reads an optional sign and then decimal
  digits up to the first other character, and gives 0 when there is no digit. A value out
  of the range of \<open>int\<close> gives \<open>INT_MAX\<close> or \<open>INT_MIN\<close>, as the Microsoft runtime documents.
  The result is a C \<open>int\<close>, a 32-bit word read as signed.
\<close>

definition isspace :: "char \<Rightarrow> bool" where
  "isspace c = (c = CHR '' '' \<or> (9::nat) \<le> of_char c \<and> of_char c \<le> (13::nat))"

definition isdigit :: "char \<Rightarrow> bool" where
  "isdigit c = ((48::nat) \<le> of_char c \<and> of_char c \<le> (57::nat))"

fun digits_value :: "int \<Rightarrow> string \<Rightarrow> int" where
  "digits_value acc [] = acc"
| "digits_value acc (c # cs) =
     (if isdigit c then digits_value (acc * 10 + (of_char c - 48)) cs else acc)"

definition atoi :: "string \<Rightarrow> 32 word" where
  "atoi s =
    (let r = dropWhile isspace s;
         v = (case r of
                [] \<Rightarrow> 0
              | c # cs \<Rightarrow>
                  if c = CHR ''-'' then - digits_value 0 cs
                  else if c = CHR ''+'' then digits_value 0 cs
                  else digits_value 0 r)
     in word_of_int (max (- (2 ^ 31)) (min (2 ^ 31 - 1) v)))"

text \<open>Line 133: \<open>int delay_ms = (argc >= 3) ? atoi(argv[2]) : 100\<close>.\<close>

definition delay_arg :: "string list \<Rightarrow> 32 word" where
  "delay_arg argv = (if length argv \<ge> 3 then atoi (argv ! 2) else 100)"

definition interception_set_filter :: "nat \<Rightarrow> key_filter \<Rightarrow> world \<Rightarrow> world" where
  "interception_set_filter context f = emit (SetFilter context f)"

definition interception_destroy_context :: "nat \<Rightarrow> world \<Rightarrow> world" where
  "interception_destroy_context context = emit (DestroyContext context)"

text \<open>
  \<open>main\<close> gets the command line \<open>argv\<close>, program name first, so \<open>argc\<close> is its length. It
  gives the exit code, \<open>None\<close> when the program is suspended for ever and never exits, and
  the world it leaves.
\<close>

definition main :: "driver \<Rightarrow> string list \<Rightarrow> int option \<times> world" where
  "main drv argv =
    (if length argv < 2 then
       (Some 1,
        printf (''Example: interception-type.exe '' @ [CHR 0x22] @ ''password123'' @ [CHR 0x22] @ '' 100'' @ [CHR 0x0A])
          (printf (''Usage: interception-type.exe '' @ [CHR 0x22] @ ''text to type'' @ [CHR 0x22] @ '' [delay_ms]'' @ [CHR 0x0A])
             start))
     else
       let text = argv ! 1;
           delay_ms = delay_arg argv;
           w1 = printf (''Interception Keyboard Typer'' @ [CHR 0x0A]) start;
           w2 = printf (''============================'' @ [CHR 0x0A]) w1;
           w3 = printf (''Text: '' @ c_str text @ [CHR 0x0A]) w2;
           w4 = printf (''Delay: '' @ show_int (sint delay_ms) @ ''ms per character'' @ [CHR 0x0A, CHR 0x0A]) w3;
           context = interception_create_context drv
       in
         if context = 0 then
           (Some 1,
            fprintf_stderr (''Run: install-interception.exe /install'' @ [CHR 0x0A])
              (fprintf_stderr (''Is the Interception driver installed?'' @ [CHR 0x0A])
                 (fprintf_stderr (''ERROR: Failed to create Interception context.'' @ [CHR 0x0A]) w4)))
         else
           let w5 = printf (''Interception context created successfully'' @ [CHR 0x0A]) w4;
               w6 = printf (''Press any key on your keyboard...'' @ [CHR 0x0A]) w5;
               w7 = interception_set_filter context INTERCEPTION_FILTER_KEY_DOWN w6;
               keyboard = interception_wait drv
           in
             if interception_is_invalid drv keyboard then
               (Some 1,
                interception_destroy_context context
                  (fprintf_stderr (''ERROR: No keyboard device detected'' @ [CHR 0x0A]) w7))
             else
               let w8 = printf (''Keyboard device detected: '' @ show_int keyboard @ [CHR 0x0A]) w7;
                   w9 = interception_set_filter context INTERCEPTION_FILTER_KEY_NONE w8;
                   w10 = Sleep 500 w9;
                   w11 = printf ([CHR 0x0A] @ ''Starting to type in 2 seconds...'' @ [CHR 0x0A]) w10;
                   w12 = Sleep 2000 w11;
                   w13 = type_text drv context keyboard text delay_ms w12;
                   w14 = printf ([CHR 0x0A] @ ''Done! Typed '' @ show_int (int (strlen text)) @ '' characters'' @ [CHR 0x0A]) w13;
                   w15 = interception_destroy_context context w14
               in ((if hung w15 then None else Some 0), w15))"

subsection \<open>The character sets and event vocabulary of the specification\<close>

text \<open>
  The sets of characters that the specification declares for the encoder, written out, and
  the base key of every shifted symbol as the comments of the \<open>switch\<close> name it.
\<close>

definition lowercase_letters :: string where
  "lowercase_letters = ''abcdefghijklmnopqrstuvwxyz''"

definition uppercase_letters :: string where
  "uppercase_letters = ''ABCDEFGHIJKLMNOPQRSTUVWXYZ''"

definition digit_chars :: string where
  "digit_chars = ''0123456789''"

definition fixed_punctuation :: string where
  "fixed_punctuation = [CHR '' '', CHR 0x0A, CHR 0x09] @ ''-=[]'' @ [CHR 0x5C] @ '';'' @ [CHR 0x27] @ '',./'' @ [CHR 0x60]"

definition shifted_punctuation :: string where
  "shifted_punctuation = ''!@#$%^&*()_+{}|:'' @ [CHR 0x22] @ ''~<>?''"

definition declared :: "char \<Rightarrow> bool" where
  "declared c =
    (c \<in> set (lowercase_letters @ uppercase_letters @ digit_chars @ fixed_punctuation @ shifted_punctuation))"

definition toUpper :: "char \<Rightarrow> char" where
  "toUpper c = (if c \<in> set lowercase_letters then char_of (of_char c - (32::nat)) else c)"

definition base_key :: "(char \<times> char) list" where
  "base_key =
    [(CHR ''!'', CHR ''1''), (CHR ''@'', CHR ''2''), (CHR ''#'', CHR ''3''), (CHR ''$'', CHR ''4''),
     (CHR ''%'', CHR ''5''), (CHR ''^'', CHR ''6''), (CHR ''&'', CHR ''7''), (CHR ''*'', CHR ''8''),
     (CHR ''('', CHR ''9''), (CHR '')'', CHR ''0''), (CHR ''_'', CHR ''-''), (CHR ''+'', CHR ''=''),
     (CHR ''{'', CHR ''[''), (CHR ''}'', CHR '']''), (CHR ''|'', CHR 0x5C), (CHR '':'', CHR '';''),
     (CHR 0x22, CHR 0x27), (CHR ''~'', CHR 0x60), (CHR ''<'', CHR '',''), (CHR ''>'', CHR ''.''),
     (CHR ''?'', CHR ''/'')]"

text \<open>What a run shows: the strokes handed to the driver and the lines on standard output.\<close>

fun stroke_of :: "effect \<Rightarrow> InterceptionKeyStroke list" where
  "stroke_of (Send c d s r) = [s]"
| "stroke_of _ = []"

definition strokes :: "world \<Rightarrow> InterceptionKeyStroke list" where
  "strokes w = concat (map stroke_of (trace w))"

fun stdout_of :: "effect \<Rightarrow> string list" where
  "stdout_of (Stdout s) = [s]"
| "stdout_of _ = []"

definition printed :: "world \<Rightarrow> string list" where
  "printed w = concat (map stdout_of (trace w))"

definition key_down :: "16 word \<Rightarrow> InterceptionKeyStroke" where
  "key_down sc = \<lparr>code = sc, state = INTERCEPTION_KEY_DOWN, information = 0\<rparr>"

definition key_up :: "16 word \<Rightarrow> InterceptionKeyStroke" where
  "key_up sc = \<lparr>code = sc, state = INTERCEPTION_KEY_UP, information = 0\<rparr>"

text \<open>
  The expansion rule of the specification (section 4.2) for one character, and the line
  that the loop prints for it.
\<close>

definition key_events :: "char \<Rightarrow> InterceptionKeyStroke list" where
  "key_events c =
    (case char_to_scancode c of (sc, shift) \<Rightarrow>
       if sc = 0 then []
       else if shift then [key_down 0x2A, key_down sc, key_up sc, key_up 0x2A]
       else [key_down sc, key_up sc])"

definition report_line :: "char \<Rightarrow> string" where
  "report_line c = (if fst (char_to_scancode c) = 0 then warning_line c else typed_line c)"

text \<open>Reading back the hexadecimal digits of a warning.\<close>

definition hex_digit_value :: "char \<Rightarrow> nat" where
  "hex_digit_value c = (if of_char c < (58::nat) then of_char c - 48 else of_char c - 55)"

definition hex_value :: "string \<Rightarrow> nat" where
  "hex_value s = foldl (\<lambda>v c. 16 * v + hex_digit_value c) 0 s"

text \<open>
  Two runs make the same calls when they are suspended alike and their traces agree up to
  the values that \<open>interception_send\<close> returned.
\<close>

fun forget_result :: "effect \<Rightarrow> effect" where
  "forget_result (Send c d s r) = Send c d s 0"
| "forget_result e = e"

definition same_calls :: "world \<Rightarrow> world \<Rightarrow> bool" where
  "same_calls w1 w2 = (hung w1 = hung w2 \<and> map forget_result (trace w1) = map forget_result (trace w2))"

fun send_outcome :: "effect \<Rightarrow> (16 word \<times> key_state \<times> int) list" where
  "send_outcome (Send c d s r) = [(code s, state s, r)]"
| "send_outcome _ = []"

text \<open>Drivers for concrete runs: one that works, and ones that fail at each point.\<close>

definition working_driver :: driver where
  "working_driver =
    \<lparr>interception_create_context = 1, interception_wait = 1,
     interception_is_invalid = (\<lambda>d. d < 1 \<or> 20 < d), send_result = (\<lambda>n s. 1)\<rparr>"

definition failing_send_driver :: driver where
  "failing_send_driver = working_driver\<lparr>send_result := (\<lambda>n s. 0)\<rparr>"

definition no_context_driver :: driver where
  "no_context_driver = working_driver\<lparr>interception_create_context := 0\<rparr>"

definition no_keyboard_driver :: driver where
  "no_keyboard_driver = working_driver\<lparr>interception_wait := 0\<rparr>"

section \<open>Properties\<close>

subsection \<open>The calls of the loop body\<close>

lemma hung_emit [simp]: "hung (emit e w) = hung w"
  by (simp add: emit_def)

lemma hung_printf [simp]: "hung (printf s w) = hung w"
  by (simp add: printf_def)

lemma hung_send_key [simp]: "hung (send_key drv ctx kb sc down w) = hung w"
  by (simp add: send_key_def interception_send_def Let_def)

lemma hung_Sleep [simp]: "hung (Sleep ms w) = (hung w \<or> ms = INFINITE)"
  by (simp add: Sleep_def)

lemma ten_finite [simp]: "(10 :: 32 word) \<noteq> INFINITE"
  by (simp add: INFINITE_def)

lemma strokes_printf [simp]: "strokes (printf s w) = strokes w"
  by (simp add: printf_def emit_def strokes_def)

lemma strokes_Sleep [simp]: "strokes (Sleep ms w) = strokes w"
  by (simp add: Sleep_def strokes_def)

lemma strokes_send_key [simp]:
  "strokes (send_key drv ctx kb sc down w) =
     (if hung w then strokes w else strokes w @ [if down then key_down sc else key_up sc])"
  by (simp add: send_key_def interception_send_def Let_def strokes_def key_down_def key_up_def)

lemma printed_printf [simp]:
  "printed (printf s w) = (if hung w then printed w else printed w @ [s])"
  by (simp add: printf_def emit_def printed_def)

lemma printed_Sleep [simp]: "printed (Sleep ms w) = printed w"
  by (simp add: Sleep_def printed_def)

lemma printed_send_key [simp]: "printed (send_key drv ctx kb sc down w) = printed w"
  by (simp add: send_key_def interception_send_def Let_def printed_def)

lemma type_char_hung: "hung w \<Longrightarrow> type_char drv ctx kb d c w = w"
  by (simp add: type_char_def Let_def printf_def emit_def Sleep_def send_key_def
        interception_send_def split: prod.splits)

lemma type_loop_hung: "hung w \<Longrightarrow> type_loop drv ctx kb d cs w = w"
  by (induction cs) (simp_all add: type_char_hung)

lemma type_char_unknown:
  "fst (char_to_scancode c) = 0 \<Longrightarrow> type_char drv ctx kb d c w = printf (warning_line c) w"
  by (cases "char_to_scancode c") (simp add: type_char_def)

lemma hung_type_char:
  "hung (type_char drv ctx kb d c w) =
     (hung w \<or> d = INFINITE \<and> fst (char_to_scancode c) \<noteq> 0)"
  by (auto simp: type_char_def Let_def split: prod.splits)

lemma strokes_type_char:
  "\<not> hung w \<Longrightarrow> strokes (type_char drv ctx kb d c w) = strokes w @ key_events c"
  by (auto simp: type_char_def key_events_def Let_def split: prod.splits)

lemma printed_type_char:
  "\<not> hung (type_char drv ctx kb d c w) \<Longrightarrow>
     printed (type_char drv ctx kb d c w) = printed w @ [report_line c]"
proof -
  assume "\<not> hung (type_char drv ctx kb d c w)"
  then have live: "\<not> hung w" and fin: "d \<noteq> INFINITE \<or> fst (char_to_scancode c) = 0"
    by (auto simp: hung_type_char)
  show ?thesis
  proof (cases "fst (char_to_scancode c) = 0")
    case True
    with live show ?thesis
      by (simp add: type_char_unknown report_line_def)
  next
    case False
    with fin have "d \<noteq> INFINITE" by simp
    with live False show ?thesis
      by (cases "char_to_scancode c") (simp add: type_char_def report_line_def Let_def)
  qed
qed

subsection \<open>The loop\<close>

lemma type_loop_append:
  "type_loop drv ctx kb d (xs @ ys) w = type_loop drv ctx kb d ys (type_loop drv ctx kb d xs w)"
  by (induction xs arbitrary: w) simp_all

lemma hung_type_loop:
  "hung (type_loop drv ctx kb d cs w) =
     (hung w \<or> d = INFINITE \<and> (\<exists>c\<in>set cs. fst (char_to_scancode c) \<noteq> 0))"
  by (induction cs arbitrary: w) (auto simp: hung_type_char)

lemma strokes_type_loop:
  "\<not> hung (type_loop drv ctx kb d cs w) \<Longrightarrow>
     strokes (type_loop drv ctx kb d cs w) = strokes w @ concat (map key_events cs)"
proof (induction cs arbitrary: w)
  case Nil
  then show ?case by simp
next
  case (Cons c cs)
  let ?w' = "type_char drv ctx kb d c w"
  from Cons.prems have live: "\<not> hung ?w'"
    by (auto simp: hung_type_loop)
  then have "\<not> hung w"
    by (simp add: hung_type_char)
  then have "strokes ?w' = strokes w @ key_events c"
    by (rule strokes_type_char)
  moreover from Cons.prems have "strokes (type_loop drv ctx kb d cs ?w') = strokes ?w' @ concat (map key_events cs)"
    by (intro Cons.IH) simp
  ultimately show ?case by simp
qed

lemma printed_type_loop:
  "\<not> hung (type_loop drv ctx kb d cs w) \<Longrightarrow>
     printed (type_loop drv ctx kb d cs w) = printed w @ map report_line cs"
proof (induction cs arbitrary: w)
  case Nil
  then show ?case by simp
next
  case (Cons c cs)
  let ?w' = "type_char drv ctx kb d c w"
  from Cons.prems have live: "\<not> hung ?w'"
    by (auto simp: hung_type_loop)
  then have "printed ?w' = printed w @ [report_line c]"
    by (rule printed_type_char)
  moreover from Cons.prems have "printed (type_loop drv ctx kb d cs ?w') = printed ?w' @ map report_line cs"
    by (intro Cons.IH) simp
  ultimately show ?case by simp
qed

subsection \<open>The encoder\<close>

text \<open>A byte has 256 values, so a property of every character is checked value by value.\<close>

lemma unknown_iff_undeclared: "\<forall>c. (fst (char_to_scancode c) = 0) = (\<not> declared c)"
  by code_simp

lemma unknown_unshifted: "\<forall>c. fst (char_to_scancode c) = 0 \<longrightarrow> \<not> snd (char_to_scancode c)"
  by code_simp

lemma hex_digit_value_hex_digit: "k < 16 \<Longrightarrow> hex_digit_value (hex_digit k) = k"
  by (simp add: hex_digit_value_def hex_digit_def)

lemma hex_roundtrip: "hex_value (hex2 c) = of_char c"
proof -
  have "(of_char c :: nat) < 256"
    by simp
  then have "(of_char c :: nat) div 16 < 16"
    by arith
  then show ?thesis
    by (simp add: hex_value_def hex2_def hex_digit_value_hex_digit)
qed

text \<open>
  Claim C3. Shift state is orthogonal to scan code identity. Every lowercase letter has
  the scan code of its uppercase letter, the lowercase one without shift and the uppercase
  one with shift. Every shifted symbol of \<open>!@#$%^&*()_+{}|:"~<>?\<close> has the scan code of
  its unshifted base key and needs shift, and the base key does not.
\<close>

theorem shift_orthogonal_to_scancode:
  "(\<forall>c\<in>set lowercase_letters.
      fst (char_to_scancode c) = fst (char_to_scancode (toUpper c))
      \<and> \<not> snd (char_to_scancode c) \<and> snd (char_to_scancode (toUpper c)))
   \<and> map toUpper lowercase_letters = uppercase_letters
   \<and> (\<forall>(s, b)\<in>set base_key.
        fst (char_to_scancode s) = fst (char_to_scancode b)
        \<and> snd (char_to_scancode s) \<and> \<not> snd (char_to_scancode b))
   \<and> map fst base_key = shifted_punctuation"
  by code_simp

theorem shift_orthogonal_to_scancode_witness:
  "CHR ''q'' \<in> set lowercase_letters \<and> toUpper (CHR ''q'') = CHR ''Q''
   \<and> fst (char_to_scancode (CHR ''q'')) = fst (char_to_scancode (CHR ''Q''))
   \<and> \<not> snd (char_to_scancode (CHR ''q'')) \<and> snd (char_to_scancode (CHR ''Q''))
   \<and> (CHR ''!'', CHR ''1'') \<in> set base_key
   \<and> fst (char_to_scancode (CHR ''!'')) = fst (char_to_scancode (CHR ''1''))
   \<and> snd (char_to_scancode (CHR ''!'')) \<and> \<not> snd (char_to_scancode (CHR ''1''))"
proof -
  have q: "CHR ''q'' \<in> set lowercase_letters"
    by (simp add: lowercase_letters_def)
  have u: "toUpper (CHR ''q'') = CHR ''Q''"
    by code_simp
  have b: "(CHR ''!'', CHR ''1'') \<in> set base_key"
    by (simp add: base_key_def)
  have l: "\<forall>c\<in>set lowercase_letters.
      fst (char_to_scancode c) = fst (char_to_scancode (toUpper c))
      \<and> \<not> snd (char_to_scancode c) \<and> snd (char_to_scancode (toUpper c))"
    using shift_orthogonal_to_scancode by (rule conjunct1)
  have s: "\<forall>(s, b)\<in>set base_key.
        fst (char_to_scancode s) = fst (char_to_scancode b)
        \<and> snd (char_to_scancode s) \<and> \<not> snd (char_to_scancode b)"
    using shift_orthogonal_to_scancode by (elim conjE)
  have l': "fst (char_to_scancode (CHR ''q'')) = fst (char_to_scancode (CHR ''Q''))
      \<and> \<not> snd (char_to_scancode (CHR ''q'')) \<and> snd (char_to_scancode (CHR ''Q''))"
    using bspec [OF l q] unfolding u .
  have s': "fst (char_to_scancode (CHR ''!'')) = fst (char_to_scancode (CHR ''1''))
        \<and> snd (char_to_scancode (CHR ''!'')) \<and> \<not> snd (char_to_scancode (CHR ''1''))"
    using bspec [OF s b] unfolding prod.case .
  show ?thesis
    using q u b l' s' by (intro conjI) (erule conjunct1 conjunct2 | assumption | elim conjE)+
qed

text \<open>
  Claim C4, as stated, fails in its last part: the scan code of \<open>0\<close> is not contiguous with
  that of \<open>9\<close>. In the code \<open>9\<close> has scan code 0x0A and \<open>0\<close> has 0x0B, the very next one.
\<close>

theorem zero_scancode_follows_nine:
  "unat (fst (char_to_scancode (CHR ''0''))) = unat (fst (char_to_scancode (CHR ''9''))) + 1"
  by code_simp

text \<open>
  Claim C4, amended. The scan codes of \<open>1\<close> to \<open>9\<close> are strictly increasing and contiguous,
  0x02 to 0x0A; the scan code of \<open>0\<close> is 0x0B, which is outside that run and directly after
  the scan code of \<open>9\<close>. No digit needs shift.
\<close>

theorem digit_scancodes:
  "map (\<lambda>c. fst (char_to_scancode c)) ''123456789''
     = [0x02, 0x03, 0x04, 0x05, 0x06, 0x07, 0x08, 0x09, 0x0A]
   \<and> fst (char_to_scancode (CHR ''0'')) = 0x0B
   \<and> fst (char_to_scancode (CHR ''0'')) \<notin> set (map (\<lambda>c. fst (char_to_scancode c)) ''123456789'')
   \<and> fst (char_to_scancode (CHR ''0'')) = fst (char_to_scancode (CHR ''9'')) + 1
   \<and> map (\<lambda>c. snd (char_to_scancode c)) digit_chars = replicate 10 False"
  by code_simp

text \<open>
  Claim C9. The encoder gives a shift flag for every character, being a total function
  into pairs, and whenever it returns the unknown scan code 0 the flag is false. The loop
  body then only prints the warning: a skipped character sends no stroke, so no stray
  shift-down or shift-up.
\<close>

theorem unknown_char_never_shifts:
  "fst (char_to_scancode c) = 0 \<Longrightarrow>
     \<not> snd (char_to_scancode c)
     \<and> type_char drv ctx kb d c w = printf (warning_line c) w
     \<and> strokes (type_char drv ctx kb d c w) = strokes w"
  using unknown_unshifted by (simp add: type_char_unknown)

theorem unknown_char_never_shifts_witness:
  "fst (char_to_scancode (CHR 0xE9)) = 0 \<and> \<not> snd (char_to_scancode (CHR 0xE9))
   \<and> strokes (type_char working_driver 1 1 100 (CHR 0xE9) start) = strokes start"
proof -
  have h: "fst (char_to_scancode (CHR 0xE9)) = 0"
    by code_simp
  from unknown_char_never_shifts [OF h, of working_driver 1 1 100 start] h show ?thesis
    by blast
qed

subsection \<open>Runs of type_text\<close>

lemma zero_finite: "(0 :: 32 word) \<noteq> INFINITE"
  by (simp add: INFINITE_def)

lemma hundred_finite: "(100 :: 32 word) \<noteq> INFINITE"
  by (simp add: INFINITE_def)

lemma INFINITE_minus_one: "INFINITE = - 1"
  by (simp add: INFINITE_def)

lemma hung_start [simp]: "\<not> hung start"
  by (simp add: start_def)

lemma strokes_start [simp]: "strokes start = []"
  by (simp add: start_def strokes_def)

lemma printed_start [simp]: "printed start = []"
  by (simp add: start_def printed_def)

lemma key_events_shift:
  "snd (char_to_scancode c) \<Longrightarrow>
     key_events c = [key_down 0x2A, key_down (fst (char_to_scancode c)),
                     key_up (fst (char_to_scancode c)), key_up 0x2A]"
proof -
  assume shift: "snd (char_to_scancode c)"
  with unknown_unshifted have "fst (char_to_scancode c) \<noteq> 0"
    by blast
  with shift show ?thesis
    by (cases "char_to_scancode c") (simp add: key_events_def)
qed

lemma key_events_unknown: "fst (char_to_scancode c) = 0 \<Longrightarrow> key_events c = []"
  by (cases "char_to_scancode c") (simp add: key_events_def)

lemma hung_type_text:
  "hung (type_text drv ctx kb text d w) =
     (hung w \<or> d = INFINITE \<and> (\<exists>c\<in>set (c_str text). fst (char_to_scancode c) \<noteq> 0))"
  by (simp add: type_text_def hung_type_loop)

lemma strokes_type_text:
  "\<not> hung (type_text drv ctx kb text d w) \<Longrightarrow>
     strokes (type_text drv ctx kb text d w) = strokes w @ concat (map key_events (c_str text))"
  by (simp add: type_text_def strokes_type_loop)

lemma printed_type_text:
  "\<not> hung (type_text drv ctx kb text d w) \<Longrightarrow>
     printed (type_text drv ctx kb text d w) = printed w @ map report_line (c_str text)"
  by (simp add: type_text_def printed_type_loop)

lemma type_text_hung: "hung w \<Longrightarrow> type_text drv ctx kb text d w = w"
  by (simp add: type_text_def type_loop_hung)

lemma key_events_unknown_prefix:
  "\<forall>p\<in>set pre. fst (char_to_scancode p) = 0 \<Longrightarrow> concat (map key_events pre) = []"
  by (induction pre) (simp_all add: key_events_unknown)

lemma strokes_up_to_hang:
  assumes shift: "snd (char_to_scancode c)" and live: "\<not> hung w"
    and unknown: "\<forall>p\<in>set pre. fst (char_to_scancode p) = 0"
  shows "strokes (type_loop drv ctx kb INFINITE (pre @ c # post) w) = strokes w @ key_events c"
proof -
  let ?w' = "type_loop drv ctx kb INFINITE pre w"
  from live unknown have live': "\<not> hung ?w'"
    by (simp add: hung_type_loop)
  then have pre: "strokes ?w' = strokes w"
    using unknown by (simp add: strokes_type_loop key_events_unknown_prefix)
  from shift unknown_unshifted have "fst (char_to_scancode c) \<noteq> 0"
    by blast
  then have "hung (type_char drv ctx kb INFINITE c ?w')"
    by (simp add: hung_type_char)
  then have "type_loop drv ctx kb INFINITE (pre @ c # post) w = type_char drv ctx kb INFINITE c ?w'"
    by (simp add: type_loop_append type_loop_hung)
  with live' pre show ?thesis
    by (simp add: strokes_type_char)
qed

text \<open>
  Claim C2, as stated, fails for an occurrence that the loop never reaches: with the text
  \<open>aA\<close> and the delay \<open>-1\<close> the \<open>Sleep\<close> after \<open>a\<close> never returns, and no stroke is sent
  for the shift-requiring \<open>A\<close>.
\<close>

theorem shifted_char_unsent_after_hang:
  "snd (char_to_scancode (CHR ''A''))
   \<and> strokes (type_text working_driver 1 1 ''aA'' (- 1) start) = [key_down 0x1E, key_up 0x1E]"
  by code_simp

text \<open>
  Claim C2, amended. Whenever the loop comes to a character that needs shift, the strokes
  it sends for that character are exactly shift down, key down, key up, shift up, in this
  order. With a delay other than \<open>-1\<close> this holds for every occurrence in the text: the
  strokes of the whole run are those of the characters before the occurrence, then these
  four, then those of the characters after it, so nothing of another character comes in
  between. With the delay \<open>-1\<close> it holds for an occurrence with no supported character
  before it, after which the run is suspended. The text \<open>Ab1!\<close> with delay 0 sends exactly
  the twelve strokes listed, and four characters are reported as typed.
\<close>

theorem shifted_char_events:
  "(snd (char_to_scancode c) \<longrightarrow> \<not> hung w \<longrightarrow>
      strokes (type_char drv ctx kb d c w) =
        strokes w @ [key_down 0x2A, key_down (fst (char_to_scancode c)),
                     key_up (fst (char_to_scancode c)), key_up 0x2A])
   \<and> (snd (char_to_scancode c) \<longrightarrow> c_str text = pre @ c # post \<longrightarrow>
        \<not> hung w \<longrightarrow> d \<noteq> INFINITE \<longrightarrow>
      strokes (type_text drv ctx kb text d w) =
        strokes w @ concat (map key_events pre)
          @ [key_down 0x2A, key_down (fst (char_to_scancode c)),
             key_up (fst (char_to_scancode c)), key_up 0x2A]
          @ concat (map key_events post))
   \<and> (snd (char_to_scancode c) \<longrightarrow> c_str text = pre @ c # post \<longrightarrow>
        \<not> hung w \<longrightarrow> (\<forall>p\<in>set pre. fst (char_to_scancode p) = 0) \<longrightarrow>
      strokes (type_text drv ctx kb text INFINITE w) =
        strokes w @ [key_down 0x2A, key_down (fst (char_to_scancode c)),
                     key_up (fst (char_to_scancode c)), key_up 0x2A])
   \<and> strokes (type_text drv ctx kb ''Ab1!'' 0 start) =
       [key_down 0x2A, key_down (fst (char_to_scancode (CHR ''a''))),
        key_up (fst (char_to_scancode (CHR ''a''))), key_up 0x2A,
        key_down (fst (char_to_scancode (CHR ''b''))), key_up (fst (char_to_scancode (CHR ''b''))),
        key_down (fst (char_to_scancode (CHR ''1''))), key_up (fst (char_to_scancode (CHR ''1''))),
        key_down 0x2A, key_down (fst (char_to_scancode (CHR ''1''))),
        key_up (fst (char_to_scancode (CHR ''1''))), key_up 0x2A]
   \<and> printed (type_text drv ctx kb ''Ab1!'' 0 start) =
       [typed_line (CHR ''A''), typed_line (CHR ''b''), typed_line (CHR ''1''), typed_line (CHR ''!'')]"
proof (intro conjI impI)
  assume "snd (char_to_scancode c)" and "\<not> hung w"
  then show "strokes (type_char drv ctx kb d c w) =
        strokes w @ [key_down 0x2A, key_down (fst (char_to_scancode c)),
                     key_up (fst (char_to_scancode c)), key_up 0x2A]"
    by (simp add: strokes_type_char key_events_shift)
next
  assume shift: "snd (char_to_scancode c)" and cs: "c_str text = pre @ c # post"
    and "\<not> hung w" and "d \<noteq> INFINITE"
  then have "\<not> hung (type_text drv ctx kb text d w)"
    by (simp add: hung_type_text)
  with shift cs show "strokes (type_text drv ctx kb text d w) =
        strokes w @ concat (map key_events pre)
          @ [key_down 0x2A, key_down (fst (char_to_scancode c)),
             key_up (fst (char_to_scancode c)), key_up 0x2A]
          @ concat (map key_events post)"
    by (simp add: strokes_type_text key_events_shift)
next
  assume shift: "snd (char_to_scancode c)" and cs: "c_str text = pre @ c # post"
    and live: "\<not> hung w" and unknown: "\<forall>p\<in>set pre. fst (char_to_scancode p) = 0"
  from strokes_up_to_hang [OF shift live unknown]
  show "strokes (type_text drv ctx kb text INFINITE w) =
        strokes w @ [key_down 0x2A, key_down (fst (char_to_scancode c)),
                     key_up (fst (char_to_scancode c)), key_up 0x2A]"
    by (simp add: type_text_def cs key_events_shift [OF shift])
next
  have live: "\<not> hung (type_text drv ctx kb ''Ab1!'' 0 start)"
    by (simp add: hung_type_text zero_finite)
  have cs: "c_str ''Ab1!'' = ''Ab1!''"
    by code_simp
  have ev: "concat (map key_events ''Ab1!'') =
      [key_down 0x2A, key_down 0x1E, key_up 0x1E, key_up 0x2A, key_down 0x1F, key_up 0x1F,
       key_down 0x02, key_up 0x02, key_down 0x2A, key_down 0x02, key_up 0x02, key_up 0x2A]"
    by code_simp
  have sc: "fst (char_to_scancode (CHR ''a'')) = 0x1E" "fst (char_to_scancode (CHR ''b'')) = 0x1F"
    "fst (char_to_scancode (CHR ''1'')) = 0x02"
    by code_simp+
  show "strokes (type_text drv ctx kb ''Ab1!'' 0 start) =
       [key_down 0x2A, key_down (fst (char_to_scancode (CHR ''a''))),
        key_up (fst (char_to_scancode (CHR ''a''))), key_up 0x2A,
        key_down (fst (char_to_scancode (CHR ''b''))), key_up (fst (char_to_scancode (CHR ''b''))),
        key_down (fst (char_to_scancode (CHR ''1''))), key_up (fst (char_to_scancode (CHR ''1''))),
        key_down 0x2A, key_down (fst (char_to_scancode (CHR ''1''))),
        key_up (fst (char_to_scancode (CHR ''1''))), key_up 0x2A]"
    unfolding strokes_type_text [OF live] cs ev sc strokes_start by simp
  have rl: "map report_line ''Ab1!'' =
      [typed_line (CHR ''A''), typed_line (CHR ''b''), typed_line (CHR ''1''), typed_line (CHR ''!'')]"
    by code_simp
  show "printed (type_text drv ctx kb ''Ab1!'' 0 start) =
       [typed_line (CHR ''A''), typed_line (CHR ''b''), typed_line (CHR ''1''), typed_line (CHR ''!'')]"
    unfolding printed_type_text [OF live] cs rl printed_start by simp
qed

text \<open>
  The hypotheses of C2 hold for the \<open>A\<close> of the text \<open>bA1\<close> with delay 100, and with
  delay \<open>-1\<close> for the \<open>A\<close> after the unknown byte 0xE9.
\<close>

theorem shifted_char_events_witness:
  "snd (char_to_scancode (CHR ''A'')) \<and> \<not> hung start
   \<and> c_str ''bA1'' = ''b'' @ CHR ''A'' # ''1'' \<and> (100 :: 32 word) \<noteq> INFINITE
   \<and> c_str [CHR 0xE9, CHR ''A'', CHR ''b''] = [CHR 0xE9] @ CHR ''A'' # ''b''
   \<and> fst (char_to_scancode (CHR 0xE9)) = 0
   \<and> strokes (type_char working_driver 1 1 100 (CHR ''A'') start) =
       [key_down 0x2A, key_down 0x1E, key_up 0x1E, key_up 0x2A]
   \<and> strokes (type_text working_driver 1 1 ''bA1'' 100 start) =
       [key_down 0x1F, key_up 0x1F, key_down 0x2A, key_down 0x1E, key_up 0x1E, key_up 0x2A,
        key_down 0x02, key_up 0x02]
   \<and> strokes (type_text working_driver 1 1 [CHR 0xE9, CHR ''A'', CHR ''b''] INFINITE start) =
       [key_down 0x2A, key_down 0x1E, key_up 0x1E, key_up 0x2A]"
proof -
  have sh: "snd (char_to_scancode (CHR ''A''))"
    by code_simp
  have sc: "fst (char_to_scancode (CHR ''A'')) = 0x1E"
    by code_simp
  have cs: "c_str ''bA1'' = ''b'' @ CHR ''A'' # ''1''"
    by code_simp
  have cs': "c_str [CHR 0xE9, CHR ''A'', CHR ''b''] = [CHR 0xE9] @ CHR ''A'' # ''b''"
    by code_simp
  have u0: "fst (char_to_scancode (CHR 0xE9)) = 0"
    by code_simp
  then have un: "\<forall>p\<in>set [CHR 0xE9]. fst (char_to_scancode p) = 0"
    by simp
  have pre: "concat (map key_events ''b'') = [key_down 0x1F, key_up 0x1F]"
    by code_simp
  have post: "concat (map key_events ''1'') = [key_down 0x02, key_up 0x02]"
    by code_simp
  note t = shifted_char_events [of "CHR ''A''" start working_driver 1 1 100 "''bA1''" "''b''" "''1''"]
  note t' = shifted_char_events [of "CHR ''A''" start working_driver 1 1 _
      "[CHR 0xE9, CHR ''A'', CHR ''b'']" "[CHR 0xE9]" "''b''"]
  from t sh have a: "strokes (type_char working_driver 1 1 100 (CHR ''A'') start) =
      strokes start @ [key_down 0x2A, key_down (fst (char_to_scancode (CHR ''A''))),
                       key_up (fst (char_to_scancode (CHR ''A''))), key_up 0x2A]"
    using hung_start by blast
  from t sh cs hundred_finite have b: "strokes (type_text working_driver 1 1 ''bA1'' 100 start) =
        strokes start @ concat (map key_events ''b'')
          @ [key_down 0x2A, key_down (fst (char_to_scancode (CHR ''A''))),
             key_up (fst (char_to_scancode (CHR ''A''))), key_up 0x2A]
          @ concat (map key_events ''1'')"
    using hung_start by blast
  from t' sh cs' un
  have c: "strokes (type_text working_driver 1 1 [CHR 0xE9, CHR ''A'', CHR ''b''] INFINITE start) =
      strokes start @ [key_down 0x2A, key_down (fst (char_to_scancode (CHR ''A''))),
                       key_up (fst (char_to_scancode (CHR ''A''))), key_up 0x2A]"
    using hung_start by blast
  show ?thesis
    using sh hung_start cs hundred_finite cs' u0
      a [unfolded sc strokes_start append_Nil]
      b [unfolded sc pre post strokes_start append_Nil append_Cons]
      c [unfolded sc strokes_start append_Nil]
    by (intro conjI)
qed

text \<open>
  Claim C5. For a character outside the declared sets (letters, digits, fixed and shifted
  punctuation) the encoder returns the unknown scan code 0. The loop body then does nothing
  but print the warning, which shows the character itself and its code as two hexadecimal
  digits that read back as the byte; it sends no stroke, and the loop goes on with the
  characters after it.
\<close>

theorem unknown_char_warned_and_skipped:
  "\<not> declared x \<Longrightarrow>
     char_to_scancode x = (0, False)
     \<and> type_char drv ctx kb d x w = printf (warning_line x) w
     \<and> strokes (type_char drv ctx kb d x w) = strokes w
     \<and> (\<not> hung w \<longrightarrow>
          printed (type_char drv ctx kb d x w) =
            printed w @ [''Warning: Unknown character '' @ [CHR 0x27, x, CHR 0x27]
                           @ '' (0x'' @ hex2 x @ '')'' @ [CHR 0x0A]])
     \<and> hex_value (hex2 x) = of_char x
     \<and> (c_str text = pre @ x # post \<longrightarrow>
          type_text drv ctx kb text d w =
            type_loop drv ctx kb d post (printf (warning_line x) (type_loop drv ctx kb d pre w)))"
proof -
  assume "\<not> declared x"
  with unknown_iff_undeclared have z: "fst (char_to_scancode x) = 0"
    by blast
  with unknown_unshifted have "\<not> snd (char_to_scancode x)"
    by blast
  with z have "char_to_scancode x = (0, False)"
    by (cases "char_to_scancode x") simp
  moreover have tc: "type_char drv ctx kb d x w = printf (warning_line x) w" for w
    using z by (rule type_char_unknown)
  moreover have "\<not> hung w \<longrightarrow>
          printed (type_char drv ctx kb d x w) =
            printed w @ [''Warning: Unknown character '' @ [CHR 0x27, x, CHR 0x27]
                           @ '' (0x'' @ hex2 x @ '')'' @ [CHR 0x0A]]"
    by (simp add: tc warning_line_def)
  moreover have "c_str text = pre @ x # post \<longrightarrow>
          type_text drv ctx kb text d w =
            type_loop drv ctx kb d post (printf (warning_line x) (type_loop drv ctx kb d pre w))"
    by (simp add: type_text_def type_loop_append tc)
  ultimately show ?thesis
    by (simp add: hex_roundtrip)
qed

text \<open>The hypotheses of C5 hold for the byte 0xE9 between \<open>a\<close> and \<open>b\<close>.\<close>

theorem unknown_char_warned_and_skipped_witness:
  "\<not> declared (CHR 0xE9) \<and> \<not> hung start
   \<and> c_str [CHR ''a'', CHR 0xE9, CHR ''b''] = ''a'' @ CHR 0xE9 # ''b''
   \<and> char_to_scancode (CHR 0xE9) = (0, False)
   \<and> printed (type_char working_driver 1 1 100 (CHR 0xE9) start) =
        [''Warning: Unknown character '' @ [CHR 0x27, CHR 0xE9, CHR 0x27]
           @ '' (0x'' @ ''E9'' @ '')'' @ [CHR 0x0A]]
   \<and> hex_value ''E9'' = 233
   \<and> type_text working_driver 1 1 [CHR ''a'', CHR 0xE9, CHR ''b''] 100 start =
        type_loop working_driver 1 1 100 ''b''
          (printf (warning_line (CHR 0xE9)) (type_loop working_driver 1 1 100 ''a'' start))"
proof -
  have u: "\<not> declared (CHR 0xE9)"
    by code_simp
  have cs: "c_str [CHR ''a'', CHR 0xE9, CHR ''b''] = ''a'' @ CHR 0xE9 # ''b''"
    by code_simp
  have hx: "hex2 (CHR 0xE9) = ''E9''"
    by code_simp
  have oc: "of_char (CHR 0xE9) = (233 :: nat)"
    by simp
  note t = unknown_char_warned_and_skipped [OF u, of working_driver 1 1 100 start
      "[CHR ''a'', CHR 0xE9, CHR ''b'']" "''a''" "''b''"]
  from t have c1: "char_to_scancode (CHR 0xE9) = (0, False)"
    by (rule conjunct1)
  from t hung_start have c2: "printed (type_char working_driver 1 1 100 (CHR 0xE9) start) =
        printed start @ [''Warning: Unknown character '' @ [CHR 0x27, CHR 0xE9, CHR 0x27]
           @ '' (0x'' @ hex2 (CHR 0xE9) @ '')'' @ [CHR 0x0A]]"
    by blast
  from t have c3: "hex_value (hex2 (CHR 0xE9)) = of_char (CHR 0xE9)"
    by blast
  from t cs have c4: "type_text working_driver 1 1 [CHR ''a'', CHR 0xE9, CHR ''b''] 100 start =
        type_loop working_driver 1 1 100 ''b''
          (printf (warning_line (CHR 0xE9)) (type_loop working_driver 1 1 100 ''a'' start))"
    by blast
  show ?thesis
    using u hung_start cs c1 c2 [unfolded hx printed_start append_Nil] c3 [unfolded hx oc] c4
    by (intro conjI)
qed

text \<open>
  Claim C8, as stated, fails for the delay \<open>-1\<close>: as a \<open>DWORD\<close> it is \<open>INFINITE\<close>, the
  \<open>Sleep\<close> after the first character never returns, and the strokes of \<open>b\<close> that delay 0
  sends are never sent.
\<close>

theorem delay_minus_one_drops_events:
  "strokes (type_text working_driver 1 1 ''ab'' (- 1) start)
     \<noteq> strokes (type_text working_driver 1 1 ''ab'' 0 start)"
  by code_simp

text \<open>
  Claim C8, amended. For every text and any two delay values other than \<open>-1\<close> (which
  \<open>Sleep\<close> takes as \<open>INFINITE\<close>), in particular 0 and 100, the type operation sends the
  same key strokes in the same order and number, and returns alike.
\<close>

theorem delay_independent_events:
  "d1 \<noteq> INFINITE \<Longrightarrow> d2 \<noteq> INFINITE \<Longrightarrow>
     strokes (type_text drv ctx kb text d1 w) = strokes (type_text drv ctx kb text d2 w)
     \<and> hung (type_text drv ctx kb text d1 w) = hung (type_text drv ctx kb text d2 w)
     \<and> sint INFINITE = - 1"
proof (cases "hung w")
  case True
  then show ?thesis
    by (simp add: type_text_hung INFINITE_def)
next
  case False
  assume "d1 \<noteq> INFINITE" and "d2 \<noteq> INFINITE"
  with False have "\<not> hung (type_text drv ctx kb text d1 w)" and "\<not> hung (type_text drv ctx kb text d2 w)"
    by (simp_all add: hung_type_text)
  then show ?thesis
    by (simp add: strokes_type_text INFINITE_def)
qed

text \<open>The delays 0 and 100 satisfy the hypotheses of C8.\<close>

theorem delay_independent_events_witness:
  "(0 :: 32 word) \<noteq> INFINITE \<and> (100 :: 32 word) \<noteq> INFINITE
   \<and> strokes (type_text working_driver 1 1 ''Ab1!'' 0 start)
       = strokes (type_text working_driver 1 1 ''Ab1!'' 100 start)
   \<and> hung (type_text working_driver 1 1 ''Ab1!'' 0 start)
       = hung (type_text working_driver 1 1 ''Ab1!'' 100 start)"
  using delay_independent_events [OF zero_finite hundred_finite, of working_driver 1 1 "''Ab1!''" start]
    zero_finite hundred_finite by blast

text \<open>
  Claim C10, as stated, fails: with the text \<open>a\<close> and the delay \<open>-1\<close> the call
  \<open>Sleep(delay_ms)\<close> is \<open>Sleep(INFINITE)\<close> and the type operation never returns.
\<close>

theorem type_text_hangs_on_minus_one:
  "hung (type_text working_driver 1 1 ''a'' (- 1) start)"
  by code_simp

text \<open>
  Claim C10, amended. From a running program the type operation returns for every text
  unless the delay is \<open>-1\<close> and the text has a supported character. When it returns it has
  processed each character of the text exactly once in input order: it printed one line
  per character, a warning or a typed line, and sent the strokes of each character, in the
  order of the text.
\<close>

theorem type_text_returns:
  "\<not> hung w \<Longrightarrow>
     (hung (type_text drv ctx kb text d w) =
        (d = INFINITE \<and> (\<exists>c\<in>set (c_str text). fst (char_to_scancode c) \<noteq> 0)))
     \<and> (\<not> hung (type_text drv ctx kb text d w) \<longrightarrow>
          printed (type_text drv ctx kb text d w) = printed w @ map report_line (c_str text)
          \<and> strokes (type_text drv ctx kb text d w) = strokes w @ concat (map key_events (c_str text)))"
  by (simp add: hung_type_text printed_type_text strokes_type_text)

text \<open>The hypothesis of C10 holds at the start of a run, here with delay 100.\<close>

theorem type_text_returns_witness:
  "\<not> hung start
   \<and> \<not> hung (type_text working_driver 1 1 [CHR ''a'', CHR 0xE9, CHR ''A''] 100 start)
   \<and> printed (type_text working_driver 1 1 [CHR ''a'', CHR 0xE9, CHR ''A''] 100 start) =
       [typed_line (CHR ''a''), warning_line (CHR 0xE9), typed_line (CHR ''A'')]
   \<and> strokes (type_text working_driver 1 1 [CHR ''a'', CHR 0xE9, CHR ''A''] 100 start) =
       [key_down 0x1E, key_up 0x1E, key_down 0x2A, key_down 0x1E, key_up 0x1E, key_up 0x2A]"
proof -
  have cs: "c_str [CHR ''a'', CHR 0xE9, CHR ''A''] = [CHR ''a'', CHR 0xE9, CHR ''A'']"
    by code_simp
  have rl: "map report_line [CHR ''a'', CHR 0xE9, CHR ''A''] =
      [typed_line (CHR ''a''), warning_line (CHR 0xE9), typed_line (CHR ''A'')]"
    by code_simp
  have ev: "concat (map key_events [CHR ''a'', CHR 0xE9, CHR ''A'']) =
      [key_down 0x1E, key_up 0x1E, key_down 0x2A, key_down 0x1E, key_up 0x1E, key_up 0x2A]"
    by code_simp
  note t = type_text_returns [OF hung_start, of working_driver 1 1 "[CHR ''a'', CHR 0xE9, CHR ''A'']" 100]
  from t hundred_finite have live: "\<not> hung (type_text working_driver 1 1 [CHR ''a'', CHR 0xE9, CHR ''A''] 100 start)"
    by blast
  with t have "printed (type_text working_driver 1 1 [CHR ''a'', CHR 0xE9, CHR ''A''] 100 start) =
       printed start @ map report_line (c_str [CHR ''a'', CHR 0xE9, CHR ''A''])
     \<and> strokes (type_text working_driver 1 1 [CHR ''a'', CHR 0xE9, CHR ''A''] 100 start) =
       strokes start @ concat (map key_events (c_str [CHR ''a'', CHR 0xE9, CHR ''A'']))"
    by blast
  then show ?thesis
    using live hung_start unfolding cs rl ev printed_start strokes_start by simp
qed

subsection \<open>What becomes of the value that interception_send returns\<close>

lemma same_calls_refl [simp]: "same_calls w w"
  by (simp add: same_calls_def)

lemma same_calls_emit: "same_calls w1 w2 \<Longrightarrow> same_calls (emit e w1) (emit e w2)"
  by (simp add: same_calls_def emit_def)

lemma same_calls_printf: "same_calls w1 w2 \<Longrightarrow> same_calls (printf s w1) (printf s w2)"
  by (simp add: printf_def same_calls_emit)

lemma same_calls_Sleep: "same_calls w1 w2 \<Longrightarrow> same_calls (Sleep ms w1) (Sleep ms w2)"
  by (simp add: same_calls_def Sleep_def)

lemma same_calls_send_key:
  "same_calls w1 w2 \<Longrightarrow>
     same_calls (send_key drv1 ctx kb sc down w1) (send_key drv2 ctx kb sc down w2)"
  by (simp add: same_calls_def send_key_def interception_send_def Let_def)

lemma same_calls_type_char:
  "same_calls w1 w2 \<Longrightarrow>
     same_calls (type_char drv1 ctx kb d c w1) (type_char drv2 ctx kb d c w2)"
  by (cases "char_to_scancode c")
     (simp add: type_char_def Let_def same_calls_printf same_calls_Sleep same_calls_send_key)

lemma same_calls_type_loop:
  "same_calls w1 w2 \<Longrightarrow>
     same_calls (type_loop drv1 ctx kb d cs w1) (type_loop drv2 ctx kb d cs w2)"
  by (induction cs arbitrary: w1 w2) (simp_all add: same_calls_type_char)

lemma same_calls_type_text:
  "same_calls w1 w2 \<Longrightarrow>
     same_calls (type_text drv1 ctx kb text d w1) (type_text drv2 ctx kb text d w2)"
  by (simp add: type_text_def same_calls_type_loop)

lemma same_calls_hung: "same_calls w1 w2 \<Longrightarrow> hung w1 = hung w2"
  by (simp add: same_calls_def)

lemma stroke_of_forget_result: "stroke_of (forget_result e) = stroke_of e"
  by (cases e) simp_all

lemma stdout_of_forget_result: "stdout_of (forget_result e) = stdout_of e"
  by (cases e) simp_all

lemma same_calls_strokes: "same_calls w1 w2 \<Longrightarrow> strokes w1 = strokes w2"
proof -
  assume "same_calls w1 w2"
  then have "map stroke_of (map forget_result (trace w1)) = map stroke_of (map forget_result (trace w2))"
    by (simp add: same_calls_def)
  then show ?thesis
    by (simp add: strokes_def o_def stroke_of_forget_result)
qed

lemma same_calls_printed: "same_calls w1 w2 \<Longrightarrow> printed w1 = printed w2"
proof -
  assume "same_calls w1 w2"
  then have "map stdout_of (map forget_result (trace w1)) = map stdout_of (map forget_result (trace w2))"
    by (simp add: same_calls_def)
  then show ?thesis
    by (simp add: printed_def o_def stdout_of_forget_result)
qed

text \<open>
  Claim C6, as stated, fails: with a driver that fails every send (returns 0) and the text
  \<open>ab\<close>, the loop does not abort at the first failure but goes on to send the other three
  strokes, and the program exits with code 0.
\<close>

theorem failed_send_is_ignored:
  "fst (main failing_send_driver [''interception-type.exe'', ''ab'', ''0'']) = Some 0
   \<and> concat (map send_outcome (trace (snd (main failing_send_driver [''interception-type.exe'', ''ab'', ''0'']))))
       = [(0x1E, INTERCEPTION_KEY_DOWN, 0), (0x1E, INTERCEPTION_KEY_UP, 0),
          (0x1F, INTERCEPTION_KEY_DOWN, 0), (0x1F, INTERCEPTION_KEY_UP, 0)]"
  by code_simp

text \<open>
  Claim C6, amended. A failed send changes nothing: \<open>send_key\<close> drops the value that
  \<open>interception_send\<close> returns, so whatever the driver answers to each stroke, the type
  operation and the whole program make the same calls in the same order: the loop sends
  the same strokes, those after a failed one too, with no retry, the program prints the
  same lines and nothing more, and it exits with the same code. No failure is surfaced.
\<close>

theorem send_results_ignored:
  "fst (main (drv\<lparr>send_result := f\<rparr>) argv) = fst (main drv argv)
   \<and> same_calls (snd (main (drv\<lparr>send_result := f\<rparr>) argv)) (snd (main drv argv))
   \<and> strokes (snd (main (drv\<lparr>send_result := f\<rparr>) argv)) = strokes (snd (main drv argv))
   \<and> printed (snd (main (drv\<lparr>send_result := f\<rparr>) argv)) = printed (snd (main drv argv))
   \<and> same_calls (type_text (drv\<lparr>send_result := f\<rparr>) ctx kb text d w) (type_text drv ctx kb text d w)
   \<and> strokes (type_text (drv\<lparr>send_result := f\<rparr>) ctx kb text d w) = strokes (type_text drv ctx kb text d w)"
proof -
  let ?drv' = "drv\<lparr>send_result := f\<rparr>"
  have tt: "same_calls (type_text ?drv' c k t d w) (type_text drv c k t d w)" for c k t d w
    by (rule same_calls_type_text) simp
  have fin: "same_calls
      (interception_destroy_context c (printf s (type_text ?drv' c k t d w)))
      (interception_destroy_context c (printf s (type_text drv c k t d w)))" for c k t d w s
    unfolding interception_destroy_context_def
    by (intro same_calls_emit same_calls_printf tt)
  have code: "fst (main ?drv' argv) = fst (main drv argv)"
    by (simp add: main_def Let_def same_calls_hung [OF fin])
  have calls: "same_calls (snd (main ?drv' argv)) (snd (main drv argv))"
    by (simp add: main_def Let_def fin)
  show ?thesis
    using code calls same_calls_strokes [OF calls] same_calls_printed [OF calls]
      tt same_calls_strokes [OF tt]
    by (intro conjI)
qed

subsection \<open>atoi reads what %d prints\<close>

lemma of_char_digit_char: "k < 10 \<Longrightarrow> of_char (digit_char k) = 48 + int k"
proof -
  assume "k < 10"
  then have "(of_char (digit_char k) :: nat) = 48 + k"
    by (simp add: digit_char_def)
  then have "int (of_char (digit_char k)) = 48 + int k"
    by simp
  then show ?thesis
    by (simp only: of_nat_of_char)
qed

lemma isdigit_digit_char: "k < 10 \<Longrightarrow> isdigit (digit_char k)"
  by (simp add: isdigit_def digit_char_def)

lemma digits_value_show_nat:
  "digits_value acc (show_nat n @ ys) = digits_value (acc * 10 ^ length (show_nat n) + int n) ys"
proof (induction n arbitrary: acc ys rule: show_nat.induct)
  case (1 n)
  show ?case
  proof (cases "n < 10")
    case True
    then have "show_nat n = [digit_char n]"
      by (subst show_nat.simps) simp
    with True show ?thesis
      by (simp add: isdigit_digit_char of_char_digit_char)
  next
    case False
    let ?d = "digit_char (n mod 10)"
    have d: "n mod 10 < 10"
      by simp
    from False have sn: "show_nat n = show_nat (n div 10) @ [?d]"
      by (subst show_nat.simps) simp
    have "digits_value acc (show_nat n @ ys) = digits_value acc (show_nat (n div 10) @ ?d # ys)"
      by (simp add: sn)
    also have "\<dots> = digits_value (acc * 10 ^ length (show_nat (n div 10)) + int (n div 10)) (?d # ys)"
      using False by (rule "1.IH")
    also have "\<dots> = digits_value ((acc * 10 ^ length (show_nat (n div 10)) + int (n div 10)) * 10 + int (n mod 10)) ys"
      using d by (simp add: isdigit_digit_char of_char_digit_char del: of_nat_mod of_nat_div)
    also have "(acc * 10 ^ length (show_nat (n div 10)) + int (n div 10)) * 10 + int (n mod 10)
        = acc * 10 ^ length (show_nat n) + int n"
    proof -
      have "int n = int (n div 10) * 10 + int (n mod 10)"
        by (simp add: zdiv_int zmod_int)
      then show ?thesis
        by (simp add: sn algebra_simps)
    qed
    finally show ?thesis .
  qed
qed

lemma digits_value_show_nat0: "digits_value 0 (show_nat n) = int n"
  using digits_value_show_nat [of 0 n "[]"] by simp

lemma show_nat_starts_with_digit: "\<exists>c cs. show_nat n = c # cs \<and> isdigit c"
proof (induction n rule: show_nat.induct)
  case (1 n)
  show ?case
  proof (cases "n < 10")
    case True
    then have "show_nat n = [digit_char n]"
      by (subst show_nat.simps) simp
    with True show ?thesis
      by (simp add: isdigit_digit_char)
  next
    case False
    then have sn: "show_nat n = show_nat (n div 10) @ [digit_char (n mod 10)]"
      by (subst show_nat.simps) simp
    from False "1.IH" obtain c cs where "show_nat (n div 10) = c # cs" and "isdigit c"
      by blast
    with sn show ?thesis
      by simp
  qed
qed

lemma isdigit_plain: "isdigit c \<Longrightarrow> \<not> isspace c \<and> c \<noteq> CHR ''-'' \<and> c \<noteq> CHR ''+''"
  by (auto simp: isdigit_def isspace_def)

lemma atoi_show_int:
  assumes "- (2 ^ 31) \<le> i" and "i < 2 ^ 31"
  shows "sint (atoi (show_int i)) = i"
proof -
  have clamp: "max (- (2 ^ 31)) (min (2 ^ 31 - 1) i) = i"
    using assms by simp
  have rd: "sint (word_of_int i :: 32 word) = i"
  proof -
    from assms have "0 \<le> i + 2 ^ 31" and "i + 2 ^ 31 < 2 ^ 32"
      by simp_all
    then have "(i + 2 ^ 31) mod 2 ^ 32 = i + 2 ^ 31"
      by (rule mod_pos_pos_trivial)
    then show ?thesis
      by (simp add: int_word_sint)
  qed
  show ?thesis
  proof (cases "i < 0")
    case True
    then have "show_int i = CHR ''-'' # show_nat (nat (- i))"
      by (simp add: show_int_def)
    moreover have "\<not> isspace (CHR ''-'')"
      by (simp add: isspace_def)
    ultimately have "atoi (show_int i) = word_of_int (max (- (2 ^ 31)) (min (2 ^ 31 - 1) (- int (nat (- i)))))"
      by (simp add: atoi_def digits_value_show_nat0)
    with True clamp rd show ?thesis
      by simp
  next
    case False
    then have si: "show_int i = show_nat (nat i)"
      by (simp add: show_int_def)
    obtain c cs where sn: "show_nat (nat i) = c # cs" and dg: "isdigit c"
      using show_nat_starts_with_digit by blast
    from dg have pl: "\<not> isspace c" "c \<noteq> CHR ''-''" "c \<noteq> CHR ''+''"
      using isdigit_plain by blast+
    have "digits_value 0 (c # cs) = int (nat i)"
      using digits_value_show_nat0 [of "nat i"] by (simp add: sn)
    with pl have "atoi (show_int i) = word_of_int (max (- (2 ^ 31)) (min (2 ^ 31 - 1) (int (nat i))))"
      by (simp add: atoi_def si sn del: digits_value.simps)
    with False clamp rd show ?thesis
      by simp
  qed
qed

subsection \<open>The exit code of main\<close>

lemma hung_fprintf_stderr [simp]: "hung (fprintf_stderr s w) = hung w"
  by (simp add: fprintf_stderr_def)

lemma hung_set_filter [simp]: "hung (interception_set_filter ctx f w) = hung w"
  by (simp add: interception_set_filter_def)

lemma hung_destroy_context [simp]: "hung (interception_destroy_context ctx w) = hung w"
  by (simp add: interception_destroy_context_def)

lemma main_waits_finite [simp]: "(500 :: 32 word) \<noteq> INFINITE" "(2000 :: 32 word) \<noteq> INFINITE"
  by (simp_all add: INFINITE_def)

lemma main_without_text: "length argv < 2 \<Longrightarrow> fst (main drv argv) = Some 1"
  by (simp add: main_def)

lemma main_without_context:
  "2 \<le> length argv \<Longrightarrow> interception_create_context drv = 0 \<Longrightarrow> fst (main drv argv) = Some 1"
  by (simp add: main_def Let_def)

lemma main_without_keyboard:
  "2 \<le> length argv \<Longrightarrow> interception_create_context drv \<noteq> 0 \<Longrightarrow>
   interception_is_invalid drv (interception_wait drv) \<Longrightarrow> fst (main drv argv) = Some 1"
  by (simp add: main_def Let_def)

lemma main_after_typing:
  "2 \<le> length argv \<Longrightarrow> interception_create_context drv \<noteq> 0 \<Longrightarrow>
   \<not> interception_is_invalid drv (interception_wait drv) \<Longrightarrow>
   fst (main drv argv) =
     (if delay_arg argv = INFINITE \<and> (\<exists>c\<in>set (c_str (argv ! 1)). fst (char_to_scancode c) \<noteq> 0)
      then None else Some 0)"
  by (simp add: main_def Let_def hung_type_text start_def)

text \<open>
  Claim C7, as stated, fails in one part: the delay is not parsed as a non-negative
  integer. \<open>atoi\<close> reads a sign, and \<open>main\<close> passes the value on unchecked: the argument
  \<open>-5\<close> gives \<open>delay_ms = -5\<close>.
\<close>

theorem negative_delay_accepted:
  "sint (delay_arg [''interception-type.exe'', ''a'', ''-5'']) = - 5"
  by code_simp

text \<open>
  Claim C7, amended. The program exits with code 1 when the text argument is missing, when
  no context can be created, and when the device reported is invalid. Otherwise it types the
  text and exits with code 0, warnings for unknown characters or not; it never exits only
  when the delay is \<open>-1\<close> and the text has a supported character. The delay is 100 when
  there is no third argument and otherwise what \<open>atoi\<close> reads from it, a signed 32-bit
  integer: every value of \<open>int\<close>, negative ones too, is read back from its decimal form,
  and the program checks no bound on it.
\<close>

theorem cli_arguments_and_exit_codes:
  "(length argv < 2 \<longrightarrow> fst (main drv argv) = Some 1)
   \<and> (2 \<le> length argv \<and> interception_create_context drv = 0 \<longrightarrow> fst (main drv argv) = Some 1)
   \<and> (2 \<le> length argv \<and> interception_create_context drv \<noteq> 0
        \<and> interception_is_invalid drv (interception_wait drv) \<longrightarrow> fst (main drv argv) = Some 1)
   \<and> (2 \<le> length argv \<and> interception_create_context drv \<noteq> 0
        \<and> \<not> interception_is_invalid drv (interception_wait drv) \<longrightarrow>
        fst (main drv argv) =
          (if delay_arg argv = INFINITE
              \<and> (\<exists>c\<in>set (c_str (argv ! 1)). fst (char_to_scancode c) \<noteq> 0)
           then None else Some 0))
   \<and> (length argv < 3 \<longrightarrow> delay_arg argv = 100)
   \<and> (3 \<le> length argv \<longrightarrow> delay_arg argv = atoi (argv ! 2))
   \<and> (- (2 ^ 31) \<le> i \<and> i < 2 ^ 31 \<longrightarrow> sint (atoi (show_int i)) = i)"
  by (simp add: main_without_text main_without_context main_without_keyboard main_after_typing
        delay_arg_def atoi_show_int)

text \<open>Each hypothesis of C7 holds at a concrete command line and driver.\<close>

theorem cli_arguments_and_exit_codes_witness:
  "length [''interception-type.exe''] < 2
   \<and> fst (main working_driver [''interception-type.exe'']) = Some 1
   \<and> 2 \<le> length [''interception-type.exe'', ''a'']
   \<and> interception_create_context no_context_driver = 0
   \<and> fst (main no_context_driver [''interception-type.exe'', ''a'']) = Some 1
   \<and> interception_create_context no_keyboard_driver \<noteq> 0
   \<and> interception_is_invalid no_keyboard_driver (interception_wait no_keyboard_driver)
   \<and> fst (main no_keyboard_driver [''interception-type.exe'', ''a'']) = Some 1
   \<and> interception_create_context working_driver \<noteq> 0
   \<and> \<not> interception_is_invalid working_driver (interception_wait working_driver)
   \<and> fst (main working_driver [''interception-type.exe'', [CHR ''a'', CHR 0xE9, CHR ''b'']]) = Some 0
   \<and> length [''interception-type.exe'', ''a''] < 3
   \<and> delay_arg [''interception-type.exe'', ''a''] = 100
   \<and> 3 \<le> length [''interception-type.exe'', ''a'', ''250'']
   \<and> delay_arg [''interception-type.exe'', ''a'', ''250''] = atoi ''250''
   \<and> - (2 ^ 31) \<le> (- 5 :: int) \<and> (- 5 :: int) < 2 ^ 31
   \<and> sint (atoi (show_int (- 5))) = - 5"
proof -
  note t = cli_arguments_and_exit_codes
  have nc: "interception_create_context no_context_driver = 0"
    by (simp add: no_context_driver_def working_driver_def)
  have nk: "interception_create_context no_keyboard_driver \<noteq> 0"
    "interception_is_invalid no_keyboard_driver (interception_wait no_keyboard_driver)"
    by (simp_all add: no_keyboard_driver_def working_driver_def)
  have wd: "interception_create_context working_driver \<noteq> 0"
    "\<not> interception_is_invalid working_driver (interception_wait working_driver)"
    by (simp_all add: working_driver_def)
  have e1: "fst (main working_driver [''interception-type.exe'']) = Some 1"
    using t [of "[''interception-type.exe'']" working_driver] by simp
  have e2: "fst (main no_context_driver [''interception-type.exe'', ''a'']) = Some 1"
    using t [of "[''interception-type.exe'', ''a'']" no_context_driver] nc by simp
  have e3: "fst (main no_keyboard_driver [''interception-type.exe'', ''a'']) = Some 1"
    using t [of "[''interception-type.exe'', ''a'']" no_keyboard_driver] nk by simp
  have d0: "delay_arg [''interception-type.exe'', [CHR ''a'', CHR 0xE9, CHR ''b'']] = 100"
    using t [of "[''interception-type.exe'', [CHR ''a'', CHR 0xE9, CHR ''b'']]"] by simp
  have e4: "fst (main working_driver [''interception-type.exe'', [CHR ''a'', CHR 0xE9, CHR ''b'']]) = Some 0"
    using t [of "[''interception-type.exe'', [CHR ''a'', CHR 0xE9, CHR ''b'']]" working_driver] wd
    by (simp add: d0 hundred_finite del: set_simps)
  have d1: "delay_arg [''interception-type.exe'', ''a''] = 100"
    using t [of "[''interception-type.exe'', ''a'']"] by simp
  have d2: "delay_arg [''interception-type.exe'', ''a'', ''250''] = atoi ''250''"
    using t [of "[''interception-type.exe'', ''a'', ''250'']"] by simp
  have r: "sint (atoi (show_int (- 5))) = - 5"
    using t [of _ _ "- 5"] by simp
  show ?thesis
    using nc nk wd e1 e2 e3 e4 d1 d2 r by simp
qed

text \<open>
  Claim C1 says that the count reported is the number of characters emitted, 2 for two
  supported characters around an unsupported one. The code at that input: \<open>type_text\<close>
  returns nothing, and the count that \<open>main\<close> prints after it is \<open>strlen(text)\<close>. For the
  text \<open>a\<close>, byte 0xE9, \<open>b\<close> the program sends the strokes of two characters, prints one
  warning, exits with code 0, and reports \<open>Done! Typed 3 characters\<close>.
\<close>

theorem reported_count_includes_skipped:
  "fst (main working_driver [''interception-type.exe'', [CHR ''a'', CHR 0xE9, CHR ''b'']]) = Some 0
   \<and> strokes (snd (main working_driver [''interception-type.exe'', [CHR ''a'', CHR 0xE9, CHR ''b'']]))
       = [key_down 0x1E, key_up 0x1E, key_down 0x1F, key_up 0x1F]
   \<and> printed (snd (main working_driver [''interception-type.exe'', [CHR ''a'', CHR 0xE9, CHR ''b'']]))
       = [''Interception Keyboard Typer'' @ [CHR 0x0A],
          ''============================'' @ [CHR 0x0A],
          ''Text: a'' @ [CHR 0xE9] @ ''b'' @ [CHR 0x0A],
          ''Delay: 100ms per character'' @ [CHR 0x0A, CHR 0x0A],
          ''Interception context created successfully'' @ [CHR 0x0A],
          ''Press any key on your keyboard...'' @ [CHR 0x0A],
          ''Keyboard device detected: 1'' @ [CHR 0x0A],
          [CHR 0x0A] @ ''Starting to type in 2 seconds...'' @ [CHR 0x0A],
          ''Typed: a'' @ [CHR 0x0A],
          ''Warning: Unknown character '' @ [CHR 0x27, CHR 0xE9, CHR 0x27] @ '' (0xE9)'' @ [CHR 0x0A],
          ''Typed: b'' @ [CHR 0x0A],
          [CHR 0x0A] @ ''Done! Typed 3 characters'' @ [CHR 0x0A]]"
  by code_simp

end
